theory Spec2Isabelle
  imports Main "HOL-Library.Sublist"
begin

section \<open>libmat2.abstract: the parser base class\<close>

text \<open>
  A shallow embedding of \<^verbatim>\<open>src/libmat2/abstract.py\<close>. Python strings are modelled
  as \<^typ>\<open>string\<close>; the code only ever compares characters with the ASCII characters
  of the bracket expression \<^verbatim>\<open>[a-z0-9./]\<close>, with \<^verbatim>\<open>'.'\<close> and with \<^verbatim>\<open>'/'\<close>.
  Paths follow the POSIX flavour of \<^verbatim>\<open>os.path\<close>.
\<close>

subsection \<open>The library routines used by the constructor\<close>

text \<open>
  \<^verbatim>\<open>re.search('^[a-z0-9./]', filename)\<close>: without the MULTILINE flag the anchor only
  matches at the start of the string, so the search succeeds exactly when the string has
  a first character and that character lies in the bracket expression. The ranges
  \<^verbatim>\<open>a-z\<close> and \<^verbatim>\<open>0-9\<close> are ranges of character codes.
\<close>

definition in_class :: "char \<Rightarrow> bool" where
  "in_class c \<longleftrightarrow>
     (97 \<le> (of_char c :: nat) \<and> (of_char c :: nat) \<le> 122) \<or>
     (48 \<le> (of_char c :: nat) \<and> (of_char c :: nat) \<le> 57) \<or>
     c = CHR ''.'' \<or> c = CHR ''/''"

definition re_search :: "string \<Rightarrow> bool" where
  "re_search name = (case name of [] \<Rightarrow> False | c # _ \<Rightarrow> in_class c)"

text \<open>
  \<^verbatim>\<open>str.startswith\<close>, \<^verbatim>\<open>str.endswith\<close> and \<^verbatim>\<open>posixpath.join(a, b)\<close>:
  \<^verbatim>\<open>
  path = a
  if b.startswith(sep):                     path = b
  elif not path or path.endswith(sep):      path += b
  else:                                     path += sep + b
  \<close>
\<close>

definition sep :: char where
  "sep = CHR ''/''"

definition extsep :: char where
  "extsep = CHR ''.''"

definition startswith :: "string \<Rightarrow> char \<Rightarrow> bool" where
  "startswith s c = (case s of [] \<Rightarrow> False | x # _ \<Rightarrow> x = c)"

definition endswith :: "string \<Rightarrow> char \<Rightarrow> bool" where
  "endswith s c = startswith (rev s) c"

definition path_join :: "string \<Rightarrow> string \<Rightarrow> string" where
  "path_join a b =
     (if startswith b sep then b
      else if a = [] \<or> endswith a sep then a @ b
      else a @ [sep] @ b)"

text \<open>
  \<^verbatim>\<open>str.rfind(c)\<close>: the highest index at which the character occurs, \<open>-1\<close> when it
  does not occur. The scan runs left to right and remembers the last hit.
\<close>

fun rfind_from :: "char \<Rightarrow> string \<Rightarrow> int \<Rightarrow> int \<Rightarrow> int" where
  "rfind_from c [] i found = found"
| "rfind_from c (x # xs) i found = rfind_from c xs (i + 1) (if x = c then i else found)"

definition rfind :: "string \<Rightarrow> char \<Rightarrow> int" where
  "rfind p c = rfind_from c p 0 (- 1)"

text \<open>
  A slice \<^verbatim>\<open>p[i:j]\<close> with \<open>0 \<le> i\<close> and \<open>0 \<le> j\<close>; a slice never raises, it is cut
  at the end of the string.
\<close>

definition slice :: "string \<Rightarrow> int \<Rightarrow> int \<Rightarrow> string" where
  "slice p i j = take (nat j - nat i) (drop (nat i) p)"

text \<open>
  \<^verbatim>\<open>posixpath.splitext(p)\<close>, that is \<^verbatim>\<open>genericpath._splitext(p, '/', None, '.')\<close>:
  \<^verbatim>\<open>
  sepIndex = p.rfind(sep)
  dotIndex = p.rfind(extsep)
  if dotIndex > sepIndex:
      # skip all leading dots
      filenameIndex = sepIndex + 1
      while filenameIndex < dotIndex:
          if p[filenameIndex:filenameIndex+1] != extsep:
              return p[:dotIndex], p[dotIndex:]
          filenameIndex += 1
  return p, p[:0]
  \<close>
  The loop is \<open>skip_leading_dots\<close>: it answers whether the early return is taken.
\<close>

function skip_leading_dots :: "string \<Rightarrow> int \<Rightarrow> int \<Rightarrow> bool" where
  "skip_leading_dots p filenameIndex dotIndex =
     (if filenameIndex < dotIndex then
        (if slice p filenameIndex (filenameIndex + 1) \<noteq> [extsep] then True
         else skip_leading_dots p (filenameIndex + 1) dotIndex)
      else False)"
  by pat_completeness auto
termination
  by (relation "measure (\<lambda>(p, filenameIndex, dotIndex). nat (dotIndex - filenameIndex))") auto

declare skip_leading_dots.simps [simp del]

definition splitext :: "string \<Rightarrow> string \<times> string" where
  "splitext p =
     (let sepIndex = rfind p sep;
          dotIndex = rfind p extsep
      in if dotIndex > sepIndex \<and> skip_leading_dots p (sepIndex + 1) dotIndex
         then (take (nat dotIndex) p, drop (nat dotIndex) p)
         else (p, []))"

subsection \<open>The instance and its constructor\<close>

text \<open>
  The fields set by \<^verbatim>\<open>AbstractParser.__init__\<close>. The class attributes
  \<^verbatim>\<open>meta_list\<close> and \<^verbatim>\<open>mimetypes\<close> are empty sets in the base class and are not
  touched by any method.
\<close>

record parser =
  filename :: string
  output_filename :: string
  lightweight_cleaning :: bool
  in_place :: bool

text \<open>
  Exceptions as values. \<^verbatim>\<open>OSError\<close> stands for the class and its subclasses
  (\<^verbatim>\<open>FileExistsError\<close>, \<^verbatim>\<open>PermissionError\<close>, \<^verbatim>\<open>shutil.Error\<close>, ...);
  \<^verbatim>\<open>ValueError\<close> is the exception the class documents for instantiation;
  \<^verbatim>\<open>OtherException\<close> is any other subclass of \<^verbatim>\<open>Exception\<close>. The string is the
  message.
\<close>

datatype exn = OSError string | ValueError string | OtherException string

text \<open>
  \<^verbatim>\<open>
  def __init__(self, filename: str) -> None:
      if re.search('^[a-z0-9./]', filename) is None:
          filename = os.path.join('.', filename)
      self.filename = filename
      fname, extension = os.path.splitext(filename)
      self.output_filename = fname + '.cleaned' + extension
      self.lightweight_cleaning = False
      self.in_place = False
  \<close>
  The body has no \<^verbatim>\<open>raise\<close>, and none of the library routines it calls raises on a
  string: the result is always \<open>Inr\<close>.
\<close>

definition sanitize :: "string \<Rightarrow> string" where
  "sanitize name = (if \<not> re_search name then path_join ''.'' name else name)"

definition init :: "string \<Rightarrow> exn + parser" where
  "init name =
     (let name' = sanitize name;
          (fname, extension) = splitext name'
      in Inr \<lparr> filename = name',
               output_filename = fname @ ''.cleaned'' @ extension,
               lightweight_cleaning = False,
               in_place = False \<rparr>)"

subsection \<open>The file system and the host library\<close>

text \<open>
  The file system is a map from path strings to file contents; only regular files are
  represented and two paths name the same file when they are the same string. The
  \<open>trace\<close> lists, in order, what the methods of the class did to the outside world:
  the file operations they attempted and the calls of \<^verbatim>\<open>print\<close>.
\<close>

type_synonym path = string

type_synonym files = "path \<rightharpoonup> string"

datatype pyval = Str string | Tuple string exn

datatype event = Create path | Move path path | Remove path | Print "pyval list"

record world =
  files :: files
  trace :: "event list"

text \<open>
  What the class takes from its host: \<^verbatim>\<open>shutil.move(src, dst)\<close> and
  \<^verbatim>\<open>os.remove(path)\<close> are library routines whose outcome is decided outside the
  class, so they are parameters. Each takes the file system and yields the exception it
  raised, if any, and the file system it left behind. \<open>tempdir\<close> is the value of
  \<^verbatim>\<open>tempfile.gettempdir()\<close>, \<open>candidates\<close> the names that the random name
  sequence of \<^verbatim>\<open>tempfile\<close> hands out, \<open>TMP_MAX\<close> the bound of
  \<^verbatim>\<open>tempfile\<close> on the number of names tried (\<^verbatim>\<open>os.TMP_MAX\<close>, 238328 on Linux, and
  10000 where the platform has none), and \<open>os_open_fault\<close> a failure of
  \<^verbatim>\<open>os.open\<close> other than \<^verbatim>\<open>FileExistsError\<close>. \<open>py_print\<close> is the built-in
  \<^verbatim>\<open>print\<close>: it writes its arguments to \<^verbatim>\<open>sys.stdout\<close> and raises when
  that fails, for instance \<^verbatim>\<open>UnicodeEncodeError\<close> (a \<^verbatim>\<open>ValueError\<close>) on a
  file name that the encoding of the stream cannot encode, \<^verbatim>\<open>ValueError\<close> on a
  closed stream, \<^verbatim>\<open>OSError\<close> on a broken pipe.
\<close>

record env =
  shutil_move :: "files \<Rightarrow> path \<Rightarrow> path \<Rightarrow> exn option \<times> files"
  os_remove :: "files \<Rightarrow> path \<Rightarrow> exn option \<times> files"
  tempdir :: string
  candidates :: "string list"
  TMP_MAX :: nat
  os_open_fault :: "path \<Rightarrow> exn option"
  py_print :: "pyval list \<Rightarrow> exn option"

text \<open>
  \<^verbatim>\<open>tempfile.mkstemp(suffix=suf)\<close> with the default prefix and directory:
  \<^verbatim>\<open>
  for seq in range(TMP_MAX):
      name = next(names)
      file = os.path.join(dir, pre + name + suf)
      try:
          fd = os.open(file, O_RDWR | O_CREAT | O_EXCL, 0o600)
      except FileExistsError:
          continue
      return fd, file
  raise FileExistsError("No usable temporary file name found")
  \<close>
  The names are drawn over \<open>characters\<close>. The descriptor is closed by the caller at
  once and is left out.
\<close>

definition template :: string where
  "template = ''tmp''"

definition characters :: string where
  "characters = ''abcdefghijklmnopqrstuvwxyz0123456789_''"

fun mkstemp_inner :: "env \<Rightarrow> files \<Rightarrow> string \<Rightarrow> string \<Rightarrow> string list \<Rightarrow> exn + (path \<times> files)" where
  "mkstemp_inner e fs pre suf [] = Inl (OSError ''No usable temporary file name found'')"
| "mkstemp_inner e fs pre suf (name # names) =
     (let file = path_join (tempdir e) (pre @ name @ suf) in
      case fs file of
        Some _ \<Rightarrow> mkstemp_inner e fs pre suf names
      | None \<Rightarrow>
          (case os_open_fault e file of
             Some x \<Rightarrow> Inl x
           | None \<Rightarrow> Inr (file, fs(file \<mapsto> []))))"

definition mkstemp :: "env \<Rightarrow> files \<Rightarrow> string \<Rightarrow> exn + (path \<times> files)" where
  "mkstemp e fs suf = mkstemp_inner e fs template suf (take (TMP_MAX e) (candidates e))"

subsection \<open>The methods\<close>

text \<open>
  \<^verbatim>\<open>
  def set_edit_in_place(self) -> None:
      _, ext = os.path.splitext(self.filename)
      fd, self.output_filename = tempfile.mkstemp(suffix=ext)
      self.in_place = True
      os.close(fd)
  \<close>
  When \<^verbatim>\<open>mkstemp\<close> raises, nothing has been assigned yet.
\<close>

definition set_edit_in_place :: "env \<Rightarrow> parser \<Rightarrow> world \<Rightarrow> exn + (parser \<times> world)" where
  "set_edit_in_place e self w =
     (let (_, ext) = splitext (filename self) in
      case mkstemp e (files w) ext of
        Inl x \<Rightarrow> Inl x
      | Inr (file, fs) \<Rightarrow>
          Inr (self\<lparr>output_filename := file, in_place := True\<rparr>,
               w\<lparr>files := fs, trace := trace w @ [Create file]\<rparr>))"

text \<open>
  \<^verbatim>\<open>
  def __del__(self) -> None:
      if self.in_place:
          try:
              shutil.move(self.output_filename, self.filename)
          except Exception as e:
              print("[-] %s was NOT cleaned: %s" % (self.filename, e))
              try:
                  os.remove(self.output_filename)
              except OSError as e:
                  print("[-] could not remove temporary file %s: %s",
                        (self.output_filename, e))
  \<close>
  The result is the exception that leaves the method, if any, and the world after it.
  Every value of \<^typ>\<open>exn\<close> is an \<^verbatim>\<open>Exception\<close>, so the outer handler takes all
  of them; the inner handler takes \<^verbatim>\<open>OSError\<close> only. The first \<^verbatim>\<open>print\<close>
  gets one formatted string; the second gets the format string and a tuple, as written.
  Neither \<^verbatim>\<open>print\<close> stands in a \<^verbatim>\<open>try\<close> of its own: the first runs in the
  outer handler before the removal, the second in the inner handler, and an exception of
  either leaves the method. The trace records a \<open>Print\<close> for every call of
  \<^verbatim>\<open>print\<close>, whether it raised or not.
\<close>

fun is_OSError :: "exn \<Rightarrow> bool" where
  "is_OSError (OSError _) = True"
| "is_OSError _ = False"

fun str :: "exn \<Rightarrow> string" where
  "str (OSError m) = m"
| "str (ValueError m) = m"
| "str (OtherException m) = m"

definition emit :: "event list \<Rightarrow> world \<Rightarrow> world" where
  "emit es w = w\<lparr>trace := trace w @ es\<rparr>"

definition del :: "env \<Rightarrow> parser \<Rightarrow> world \<Rightarrow> exn option \<times> world" where
  "del e self w =
     (if in_place self then
        (case shutil_move e (files w) (output_filename self) (filename self) of
           (None, fs1) \<Rightarrow>
             (None, emit [Move (output_filename self) (filename self)] (w\<lparr>files := fs1\<rparr>))
         | (Some x, fs1) \<Rightarrow>
             (let report = [Str (''[-] '' @ filename self @ '' was NOT cleaned: '' @ str x)];
                  w1 = emit [Move (output_filename self) (filename self), Print report]
                            (w\<lparr>files := fs1\<rparr>)
              in case py_print e report of
                   Some px \<Rightarrow> (Some px, w1)
                 | None \<Rightarrow>
                     (case os_remove e fs1 (output_filename self) of
                        (None, fs2) \<Rightarrow>
                          (None, emit [Remove (output_filename self)] (w1\<lparr>files := fs2\<rparr>))
                      | (Some y, fs2) \<Rightarrow>
                          (if is_OSError y then
                             (let report2 = [Str ''[-] could not remove temporary file %s: %s'',
                                             Tuple (output_filename self) y]
                              in (py_print e report2,
                                  emit [Remove (output_filename self), Print report2]
                                       (w1\<lparr>files := fs2\<rparr>)))
                           else (Some y, emit [Remove (output_filename self)]
                                              (w1\<lparr>files := fs2\<rparr>))))))
      else (None, w))"

text \<open>
  The operations a caller has on an instance of the base class: requesting in-place
  editing, assigning the \<^verbatim>\<open>lightweight_cleaning\<close> attribute, and the end of life.
  An exception of \<^verbatim>\<open>set_edit_in_place\<close> reaches the caller and leaves the instance
  and the world as they were.
\<close>

datatype op = SetEditInPlace | SetLightweightCleaning bool | Del

fun step :: "env \<Rightarrow> parser \<times> world \<Rightarrow> op \<Rightarrow> parser \<times> world" where
  "step e (self, w) SetEditInPlace =
     (case set_edit_in_place e self w of Inl _ \<Rightarrow> (self, w) | Inr sw \<Rightarrow> sw)"
| "step e (self, w) (SetLightweightCleaning b) = (self\<lparr>lightweight_cleaning := b\<rparr>, w)"
| "step e (self, w) Del = (self, snd (del e self w))"

definition run :: "env \<Rightarrow> parser \<times> world \<Rightarrow> op list \<Rightarrow> parser \<times> world" where
  "run e = foldl (step e)"

text \<open>
  Three hosts to run the model on; on all of them \<^verbatim>\<open>print\<close> succeeds. In
  \<open>plain_host\<close> a move replaces the destination by the source file and a removal
  deletes the file; both raise \<^verbatim>\<open>FileNotFoundError\<close> when the file is missing and
  change nothing then. In \<open>read_only_host\<close> every move is refused
  (\<^verbatim>\<open>PermissionError\<close>) and changes nothing. \<open>full_disk_host\<close> follows the
  library's description of \<^verbatim>\<open>shutil.move\<close>: it uses \<^verbatim>\<open>os.rename\<close> when the
  destination is on the same file system, and otherwise copies the source to the
  destination and then removes the source. In \<open>cross_device_move\<close> the source is on
  another device than the destination, and the copy can write \<open>room\<close> bytes there
  (what is left of the disk, of a quota or of a file size limit): the rename is refused,
  the copy opens the destination for writing, which empties it, and writes the source
  there. When the source fits, the move succeeds; when it does not, the copy fails with
  \<^verbatim>\<open>OSError\<close> and leaves the part it wrote. \<open>full_disk_host\<close> has room for
  eight bytes.
\<close>

definition plain_move :: "files \<Rightarrow> path \<Rightarrow> path \<Rightarrow> exn option \<times> files" where
  "plain_move fs src dst =
     (case fs src of
        None \<Rightarrow> (Some (OSError ''[Errno 2] No such file or directory''), fs)
      | Some c \<Rightarrow> (None, (fs(src := None))(dst \<mapsto> c)))"

definition plain_remove :: "files \<Rightarrow> path \<Rightarrow> exn option \<times> files" where
  "plain_remove fs p =
     (case fs p of
        None \<Rightarrow> (Some (OSError ''[Errno 2] No such file or directory''), fs)
      | Some _ \<Rightarrow> (None, fs(p := None)))"

definition plain_host :: env where
  "plain_host = \<lparr> shutil_move = plain_move, os_remove = plain_remove, tempdir = ''/tmp'',
                  candidates = [''abcdefgh'', ''k3_x9q0z''], TMP_MAX = 238328,
                  os_open_fault = (\<lambda>_. None), py_print = (\<lambda>_. None) \<rparr>"

definition cross_device_move :: "nat \<Rightarrow> files \<Rightarrow> path \<Rightarrow> path \<Rightarrow> exn option \<times> files" where
  "cross_device_move room fs src dst =
     (case fs src of
        None \<Rightarrow> (Some (OSError ''[Errno 2] No such file or directory''), fs)
      | Some c \<Rightarrow>
          (if length c \<le> room then (None, (fs(src := None))(dst \<mapsto> c))
           else (Some (OSError ''[Errno 28] No space left on device''),
                 fs(dst \<mapsto> take room c))))"

definition full_disk_host :: env where
  "full_disk_host = plain_host\<lparr> shutil_move := cross_device_move 8 \<rparr>"

definition denied_move :: "files \<Rightarrow> path \<Rightarrow> path \<Rightarrow> exn option \<times> files" where
  "denied_move fs src dst = (Some (OSError ''[Errno 13] Permission denied''), fs)"

definition read_only_host :: env where
  "read_only_host = plain_host\<lparr> shutil_move := denied_move \<rparr>"

text \<open>
  An instance as the constructor leaves it for \<^verbatim>\<open>./a.jpg\<close>, the same instance after
  \<^verbatim>\<open>set_edit_in_place\<close>, a disk that holds the original file, that disk after a
  handler has written the cleaned file to the temporary path, and the same with a cleaned
  file that is larger than the original.
\<close>

definition photo :: parser where
  "photo = \<lparr> filename = ''./a.jpg'', output_filename = ''./a.cleaned.jpg'',
             lightweight_cleaning = False, in_place = False \<rparr>"

definition photo_in_place :: parser where
  "photo_in_place = \<lparr> filename = ''./a.jpg'', output_filename = ''/tmp/tmpabcdefgh.jpg'',
                      lightweight_cleaning = False, in_place = True \<rparr>"

definition disk :: world where
  "disk = \<lparr> files = [''./a.jpg'' \<mapsto> ''original''], trace = [] \<rparr>"

definition disk_cleaned :: world where
  "disk_cleaned = \<lparr> files = [''./a.jpg'' \<mapsto> ''original'', ''/tmp/tmpabcdefgh.jpg'' \<mapsto> ''cleaned''],
                    trace = [Create ''/tmp/tmpabcdefgh.jpg''] \<rparr>"

definition disk_reencoded :: world where
  "disk_reencoded =
     \<lparr> files = [''./a.jpg'' \<mapsto> ''original'', ''/tmp/tmpabcdefgh.jpg'' \<mapsto> ''cleaned and re-encoded''],
       trace = [Create ''/tmp/tmpabcdefgh.jpg''] \<rparr>"

subsection \<open>The extension invariant\<close>

text \<open>
  The extension of the output path is the extension of the source path: splitting either
  gives the same second component.
\<close>

definition extension_kept :: "parser \<Rightarrow> bool" where
  "extension_kept self \<longleftrightarrow>
     snd (splitext (output_filename self)) = snd (splitext (filename self))"

section \<open>Facts about the library routines\<close>

subsection \<open>rfind and splitext\<close>

lemma rfind_from_absent: "c \<notin> set xs \<Longrightarrow> rfind_from c xs i found = found"
  by (induction xs arbitrary: i found) auto

lemma rfind_from_last: "c \<notin> set t \<Longrightarrow> rfind_from c (a @ c # t) i found = i + int (length a)"
  by (induction a arbitrary: i found) (auto simp: rfind_from_absent)

lemma rfind_absent: "c \<notin> set p \<Longrightarrow> rfind p c = - 1"
  by (simp add: rfind_def rfind_from_absent)

lemma rfind_last: "c \<notin> set t \<Longrightarrow> rfind (a @ c # t) c = int (length a)"
  by (simp add: rfind_def rfind_from_last)

lemma rfind_cases:
  obtains (absent) "c \<notin> set p" "rfind p c = - 1"
  | (present) a t where "p = a @ c # t" "c \<notin> set t" "rfind p c = int (length a)"
proof (cases "c \<in> set p")
  case True
  then obtain a t where "p = a @ c # t" "c \<notin> set t"
    by (meson split_list_last)
  then show ?thesis using present rfind_last by blast
next
  case False
  then show ?thesis using absent rfind_absent by blast
qed

lemma rfind_append_absent: "c \<notin> set b \<Longrightarrow> rfind (a @ b) c = rfind a c"
proof (cases rule: rfind_cases [of c a])
  case absent
  assume "c \<notin> set b"
  with absent show ?thesis by (simp add: rfind_absent)
next
  case (present a' t)
  assume "c \<notin> set b"
  with present have "rfind (a' @ c # (t @ b)) c = int (length a')"
    by (intro rfind_last) simp
  with present show ?thesis by simp
qed

lemma rfind_bounds: "- 1 \<le> rfind p c \<and> rfind p c < int (length p)"
  by (cases rule: rfind_cases [of c p]) auto

lemma skip_leading_dots_iff:
  "skip_leading_dots p i d \<longleftrightarrow> (\<exists>k. i \<le> k \<and> k < d \<and> slice p k (k + 1) \<noteq> [extsep])"
proof (induction p i d rule: skip_leading_dots.induct)
  case (1 p i d)
  show ?case
  proof (cases "i < d")
    case False
    then show ?thesis by (subst skip_leading_dots.simps) auto
  next
    case True
    show ?thesis
    proof (cases "slice p i (i + 1) \<noteq> [extsep]")
      case True
      with \<open>i < d\<close> show ?thesis by (subst skip_leading_dots.simps) auto
    next
      case False
      with \<open>i < d\<close> have "skip_leading_dots p i d = skip_leading_dots p (i + 1) d"
        by (subst skip_leading_dots.simps) simp
      also have "\<dots> \<longleftrightarrow> (\<exists>k. i + 1 \<le> k \<and> k < d \<and> slice p k (k + 1) \<noteq> [extsep])"
        using 1 \<open>i < d\<close> False by simp
      also have "\<dots> \<longleftrightarrow> (\<exists>k. i \<le> k \<and> k < d \<and> slice p k (k + 1) \<noteq> [extsep])"
      proof
        assume "\<exists>k. i + 1 \<le> k \<and> k < d \<and> slice p k (k + 1) \<noteq> [extsep]"
        then obtain k where "i + 1 \<le> k" "k < d" "slice p k (k + 1) \<noteq> [extsep]" by blast
        then have "i \<le> k \<and> k < d \<and> slice p k (k + 1) \<noteq> [extsep]" by simp
        then show "\<exists>k. i \<le> k \<and> k < d \<and> slice p k (k + 1) \<noteq> [extsep]" by blast
      next
        assume "\<exists>k. i \<le> k \<and> k < d \<and> slice p k (k + 1) \<noteq> [extsep]"
        then obtain k where k: "i \<le> k" "k < d" "slice p k (k + 1) \<noteq> [extsep]" by blast
        with False have "k \<noteq> i" by auto
        with k have "i + 1 \<le> k \<and> k < d \<and> slice p k (k + 1) \<noteq> [extsep]" by simp
        then show "\<exists>k. i + 1 \<le> k \<and> k < d \<and> slice p k (k + 1) \<noteq> [extsep]" by blast
      qed
      finally show ?thesis .
    qed
  qed
qed

lemma slice_one: "0 \<le> k \<Longrightarrow> nat k < length p \<Longrightarrow> slice p k (k + 1) = [p ! nat k]"
  by (simp add: slice_def nat_add_distrib take_Suc_conv_app_nth hd_drop_conv_nth take_Suc)

lemma splitext_concat: "fst (splitext p) @ snd (splitext p) = p"
  by (simp add: splitext_def Let_def)

lemma splitext_noext: "snd (splitext p) = [] \<Longrightarrow> fst (splitext p) = p"
  using splitext_concat [of p] by simp


lemma splitext_ext:
  assumes t: "sep \<notin> set t" "extsep \<notin> set t"
    and k: "rfind a sep + 1 \<le> k" "k < int (length a)" "a ! nat k \<noteq> extsep"
  shows "splitext (a @ extsep # t) = (a, extsep # t)"
proof -
  let ?p = "a @ extsep # t"
  have ne: "sep \<noteq> extsep" by (simp add: sep_def extsep_def)
  have dot: "rfind ?p extsep = int (length a)"
    using t by (simp add: rfind_last)
  have "sep \<notin> set (extsep # t)" using t ne by simp
  then have sp: "rfind ?p sep = rfind a sep"
    by (rule rfind_append_absent)
  have lt: "rfind a sep < int (length a)"
    using rfind_bounds [of a sep] by simp
  have k0: "0 \<le> k" using k(1) rfind_bounds [of a sep] by linarith
  from k k0 have ka: "nat k < length a" by linarith
  then have "nat k < length ?p" by simp
  with k0 have "slice ?p k (k + 1) = [?p ! nat k]" by (rule slice_one)
  also have "?p ! nat k = a ! nat k"
    using ka by (simp add: nth_append)
  finally have "slice ?p k (k + 1) \<noteq> [extsep]" using k by simp
  with k have "skip_leading_dots ?p (rfind a sep + 1) (int (length a))"
    unfolding skip_leading_dots_iff by blast
  with dot sp lt show ?thesis by (simp add: splitext_def)
qed

lemma splitext_form:
  assumes "snd (splitext p) \<noteq> []"
  obtains t where "snd (splitext p) = extsep # t" "extsep \<notin> set t" "sep \<notin> set t"
proof -
  from assms have gt: "rfind p extsep > rfind p sep"
    by (auto simp: splitext_def Let_def split: if_splits)
  with assms have ext: "snd (splitext p) = drop (nat (rfind p extsep)) p"
    by (auto simp: splitext_def Let_def split: if_splits)
  from gt rfind_bounds [of p sep] have "rfind p extsep \<noteq> - 1" by linarith
  then obtain a t where at: "p = a @ extsep # t" "extsep \<notin> set t" "rfind p extsep = int (length a)"
    by (cases rule: rfind_cases [of extsep p]) auto
  have "sep \<notin> set t"
  proof (cases rule: rfind_cases [of sep p])
    case absent
    with at show ?thesis by auto
  next
    case (present a' t')
    with gt at have len: "length a' < length a" by simp
    have "t = drop (Suc (length a)) p" using at by simp
    also have "\<dots> = drop (Suc (length a)) (a' @ sep # t')" using present by simp
    also have "\<dots> = drop (length a - length a') t'" using len by (simp add: Suc_diff_le)
    finally have "set t \<subseteq> set t'" by (simp add: set_drop_subset)
    with present show ?thesis by auto
  qed
  moreover from ext at have "snd (splitext p) = extsep # t" by simp
  ultimately show ?thesis using at that by blast
qed

subsection \<open>The constructor\<close>

lemma sanitize_rewritten: "\<not> re_search p \<Longrightarrow> sanitize p = ''./'' @ p"
  by (cases p) (auto simp: sanitize_def re_search_def path_join_def startswith_def endswith_def
      sep_def in_class_def)

lemma sanitize_kept: "re_search p \<Longrightarrow> sanitize p = p"
  by (simp add: sanitize_def)

lemma in_class_dot: "in_class CHR ''.''"
  by (simp add: in_class_def)

lemma re_search_sanitize: "re_search (sanitize p)"
proof (cases "re_search p")
  case True
  then show ?thesis by (simp add: sanitize_kept)
next
  case False
  then have "sanitize p = ''./'' @ p" by (rule sanitize_rewritten)
  then show ?thesis by (simp add: re_search_def in_class_dot)
qed

lemma init_eq:
  "init p = Inr \<lparr> filename = sanitize p,
                  output_filename = fst (splitext (sanitize p)) @ ''.cleaned'' @ snd (splitext (sanitize p)),
                  lightweight_cleaning = False, in_place = False \<rparr>"
  by (simp add: init_def Let_def split_beta)

lemma init_fields:
  assumes "init p = Inr s"
  shows "filename s = sanitize p"
    and "output_filename s = fst (splitext (sanitize p)) @ ''.cleaned'' @ snd (splitext (sanitize p))"
    and "\<not> in_place s" and "\<not> lightweight_cleaning s"
  using assms unfolding init_eq by auto

lemma cleaned_ext:
  assumes "snd (splitext p) \<noteq> []"
  shows "snd (splitext (fst (splitext p) @ ''.cleaned'' @ snd (splitext p))) = snd (splitext p)"
proof -
  from assms obtain t where t: "snd (splitext p) = extsep # t" "extsep \<notin> set t" "sep \<notin> set t"
    by (rule splitext_form)
  let ?stem = "fst (splitext p)"
  let ?a = "?stem @ ''.cleaned''"
  have "sep \<notin> set ''.cleaned''" by (simp add: sep_def)
  then have "rfind ?a sep = rfind ?stem sep" by (rule rfind_append_absent)
  with rfind_bounds [of ?stem sep] have 1: "rfind ?a sep + 1 \<le> int (length ?stem + 1)" by simp
  have 2: "int (length ?stem + 1) < int (length ?a)" by simp
  have "?a ! (length ?stem + 1) = CHR ''c''" by (simp add: nth_append)
  then have ne: "?a ! (length ?stem + 1) \<noteq> extsep" by (simp add: extsep_def)
  have 3: "?a ! nat (int (length ?stem + 1)) \<noteq> extsep" unfolding nat_int by (rule ne)
  from t(3) t(2) 1 2 3 have "splitext (?a @ extsep # t) = (?a, extsep # t)" by (rule splitext_ext)
  with t(1) show ?thesis by simp
qed

lemma init_output:
  assumes "init p = Inr self"
  shows "output_filename self =
           fst (splitext (filename self)) @ ''.cleaned'' @ snd (splitext (filename self)) \<and>
         (snd (splitext (filename self)) \<noteq> [] \<longrightarrow>
            snd (splitext (output_filename self)) = snd (splitext (filename self)))"
  using init_fields [OF assms] cleaned_ext [of "sanitize p"] by simp

lemma init_extension_kept:
  assumes "init p = Inr self" and "snd (splitext (filename self)) \<noteq> []"
  shows "extension_kept self"
proof -
  from init_output [OF assms(1)] assms(2)
  have "snd (splitext (output_filename self)) = snd (splitext (filename self))" by blast
  then show ?thesis by (simp only: extension_kept_def)
qed

subsection \<open>Temporary paths\<close>

lemma characters_plain: "set n \<subseteq> set characters \<Longrightarrow> sep \<notin> set n \<and> extsep \<notin> set n"
  by (auto simp: characters_def sep_def extsep_def)

lemma path_join_template:
  obtains "path_join d (template @ n) = template @ n"
  | y where "path_join d (template @ n) = y @ sep # template @ n"
proof (cases "d = []")
  case True
  then have "path_join d (template @ n) = template @ n"
    by (simp add: path_join_def template_def startswith_def sep_def)
  then show ?thesis by (rule that(1))
next
  case False
  show ?thesis
  proof (cases "endswith d sep")
    case True
    with False obtain y where "d = y @ [sep]"
      by (cases d rule: rev_cases) (auto simp: endswith_def startswith_def)
    then have "path_join d (template @ n) = y @ sep # template @ n"
      by (simp add: path_join_def template_def startswith_def sep_def endswith_def)
    then show ?thesis by (rule that(2))
  next
    case False
    with \<open>d \<noteq> []\<close> have "path_join d (template @ n) = d @ sep # template @ n"
      by (simp add: path_join_def template_def startswith_def sep_def)
    then show ?thesis by (rule that(2))
  qed
qed

lemma splitext_plain_name:
  assumes "sep \<notin> set n" "extsep \<notin> set n"
  shows "snd (splitext (path_join d (template @ n))) = []"
proof (cases rule: path_join_template [of d n])
  case 1
  from assms have "extsep \<notin> set (template @ n)" by (simp add: template_def extsep_def)
  then have "rfind (template @ n) extsep = - 1" by (rule rfind_absent)
  with rfind_bounds [of "template @ n" sep] 1 show ?thesis
    by (simp add: splitext_def Let_def)
next
  case (2 y)
  from assms have a: "extsep \<notin> set (sep # template @ n)" "sep \<notin> set (template @ n)"
    by (simp_all add: template_def extsep_def sep_def)
  from a(1) have "rfind (y @ sep # template @ n) extsep = rfind y extsep"
    by (rule rfind_append_absent)
  moreover from a(2) have "rfind (y @ sep # template @ n) sep = int (length y)"
    by (rule rfind_last)
  ultimately show ?thesis using rfind_bounds [of y extsep] 2
    by (simp add: splitext_def Let_def)
qed

lemma splitext_suffixed_name:
  assumes n: "sep \<notin> set n" "extsep \<notin> set n" and t: "sep \<notin> set t" "extsep \<notin> set t"
  shows "snd (splitext (path_join d (template @ n @ extsep # t))) = extsep # t"
proof -
  have tn: "sep \<notin> set (template @ n)" using n by (simp add: template_def sep_def)
  have hd: "(template @ n) ! 0 \<noteq> extsep" by (simp add: template_def extsep_def)
  have "\<exists>a k. path_join d (template @ n @ extsep # t) = a @ extsep # t \<and>
          rfind a sep + 1 \<le> k \<and> k < int (length a) \<and> a ! nat k \<noteq> extsep"
  proof (cases rule: path_join_template [of d "n @ extsep # t"])
    case 1
    have "rfind (template @ n) sep = - 1" using tn by (rule rfind_absent)
    then have "rfind (template @ n) sep + 1 \<le> 0 \<and> 0 < int (length (template @ n)) \<and>
               (template @ n) ! nat 0 \<noteq> extsep"
      using hd by (simp add: template_def)
    with 1 show ?thesis by (intro exI [of _ "template @ n"] exI [of _ 0]) simp
  next
    case (2 y)
    let ?a = "y @ sep # template @ n"
    have "rfind ?a sep = int (length y)" using tn by (rule rfind_last)
    moreover have "?a ! (length y + 1) \<noteq> extsep"
      using hd by (simp add: nth_append)
    then have "?a ! nat (int (length y + 1)) \<noteq> extsep" unfolding nat_int .
    moreover have "int (length y + 1) < int (length ?a)" by (simp add: template_def)
    ultimately have "rfind ?a sep + 1 \<le> int (length y + 1) \<and> int (length y + 1) < int (length ?a) \<and>
               ?a ! nat (int (length y + 1)) \<noteq> extsep" by simp
    with 2 show ?thesis by (intro exI [of _ ?a] exI [of _ "int (length y + 1)"]) simp
  qed
  then obtain a k where "path_join d (template @ n @ extsep # t) = a @ extsep # t"
    and k: "rfind a sep + 1 \<le> k" "k < int (length a)" "a ! nat k \<noteq> extsep" by blast
  moreover from t k have "splitext (a @ extsep # t) = (a, extsep # t)" by (rule splitext_ext)
  ultimately show ?thesis by simp
qed

lemma splitext_temporary:
  assumes "sep \<notin> set n" "extsep \<notin> set n"
  shows "snd (splitext (path_join d (template @ n @ snd (splitext p)))) = snd (splitext p)"
proof (cases "snd (splitext p) = []")
  case True
  with assms show ?thesis by (simp add: splitext_plain_name)
next
  case False
  then obtain t where "snd (splitext p) = extsep # t" "extsep \<notin> set t" "sep \<notin> set t"
    by (rule splitext_form)
  with assms show ?thesis by (simp add: splitext_suffixed_name)
qed

lemma path_join_suffix: "suffix b (path_join a b)"
  by (simp add: path_join_def suffix_def)

lemma mkstemp_inner_Inr:
  assumes "mkstemp_inner e fs pre suf names = Inr (file, fs')"
  shows "\<exists>n\<in>set names. file = path_join (tempdir e) (pre @ n @ suf) \<and> fs file = None \<and>
           fs' = fs(file \<mapsto> [])"
  using assms
proof (induction names)
  case Nil
  then show ?case by simp
next
  case (Cons n names)
  show ?case
  proof (cases "fs (path_join (tempdir e) (pre @ n @ suf))")
    case None
    with Cons.prems show ?thesis by (auto simp: Let_def split: option.splits)
  next
    case (Some c)
    with Cons.prems have "mkstemp_inner e fs pre suf names = Inr (file, fs')" by simp
    from Cons.IH [OF this] show ?thesis by auto
  qed
qed

lemma mkstemp_Inr:
  assumes "mkstemp e fs suf = Inr (file, fs')"
  shows "\<exists>n\<in>set (candidates e). file = path_join (tempdir e) (template @ n @ suf) \<and>
           fs file = None \<and> fs' = fs(file \<mapsto> [])"
proof -
  from assms have "mkstemp_inner e fs template suf (take (TMP_MAX e) (candidates e)) = Inr (file, fs')"
    by (simp add: mkstemp_def)
  from mkstemp_inner_Inr [OF this] show ?thesis by (meson in_set_takeD)
qed

lemma set_edit_in_place_Inr:
  assumes "set_edit_in_place e self w = Inr (self', w')"
  obtains n where "n \<in> set (candidates e)"
    and "output_filename self' = path_join (tempdir e) (template @ n @ snd (splitext (filename self)))"
    and "files w (output_filename self') = None"
    and "files w' = (files w)(output_filename self' \<mapsto> [])"
    and "self' = self\<lparr>output_filename := output_filename self', in_place := True\<rparr>"
    and "trace w' = trace w @ [Create (output_filename self')]"
proof -
  from assms obtain f fs where m: "mkstemp e (files w) (snd (splitext (filename self))) = Inr (f, fs)"
    and s: "self' = self\<lparr>output_filename := f, in_place := True\<rparr>"
    and w: "w' = w\<lparr>files := fs, trace := trace w @ [Create f]\<rparr>"
    by (auto simp: set_edit_in_place_def split_beta split: sum.splits)
  from mkstemp_Inr [OF m] s w that show ?thesis by auto
qed

subsection \<open>End of life and runs of operations\<close>

lemma del_not_in_place: "\<not> in_place self \<Longrightarrow> del e self w = (None, w)"
  by (simp add: del_def)


lemma del_move_raises:
  assumes "in_place self"
    and "shutil_move e (files w) (output_filename self) (filename self) = (Some x, fs1)"
    and "py_print e [Str (''[-] '' @ filename self @ '' was NOT cleaned: '' @ str x)] = None"
    and "os_remove e fs1 (output_filename self) = (r, fs2)"
  shows "del e self w =
     (case r of
        None \<Rightarrow> (None, \<lparr>files = fs2, trace = trace w @
            [Move (output_filename self) (filename self),
             Print [Str (''[-] '' @ filename self @ '' was NOT cleaned: '' @ str x)],
             Remove (output_filename self)]\<rparr>)
      | Some y \<Rightarrow>
          if is_OSError y then
            (py_print e [Str ''[-] could not remove temporary file %s: %s'',
                         Tuple (output_filename self) y],
             \<lparr>files = fs2, trace = trace w @
              [Move (output_filename self) (filename self),
               Print [Str (''[-] '' @ filename self @ '' was NOT cleaned: '' @ str x)],
               Remove (output_filename self),
               Print [Str ''[-] could not remove temporary file %s: %s'',
                      Tuple (output_filename self) y]]\<rparr>)
          else
            (Some y, \<lparr>files = fs2, trace = trace w @
              [Move (output_filename self) (filename self),
               Print [Str (''[-] '' @ filename self @ '' was NOT cleaned: '' @ str x)],
               Remove (output_filename self)]\<rparr>))"
  using assms by (simp add: del_def emit_def Let_def split: option.splits)


lemma step_filename: "filename (fst (step e sw x)) = filename (fst sw)"
proof (cases sw)
  case (Pair self w)
  show ?thesis
  proof (cases x)
    case SetEditInPlace
    show ?thesis
    proof (cases "set_edit_in_place e self w")
      case (Inl a)
      with Pair SetEditInPlace show ?thesis by simp
    next
      case (Inr b)
      then show ?thesis using Pair SetEditInPlace
        by (auto simp: set_edit_in_place_def split_beta split: sum.splits)
    qed
  qed (simp_all add: Pair)
qed

lemma run_filename: "filename (fst (run e sw ops)) = filename (fst sw)"
  unfolding run_def by (induction ops arbitrary: sw) (simp_all add: step_filename)

lemma run_no_in_place:
  assumes "\<not> in_place self" "SetEditInPlace \<notin> set ops"
  shows "\<not> in_place (fst (run e (self, w) ops)) \<and> snd (run e (self, w) ops) = w"
  using assms unfolding run_def
proof (induction ops arbitrary: self)
  case Nil
  then show ?case by simp
next
  case (Cons x ops)
  show ?case
  proof (cases x)
    case SetEditInPlace
    with Cons.prems show ?thesis by simp
  next
    case (SetLightweightCleaning b)
    with Cons.prems Cons.IH [of "self\<lparr>lightweight_cleaning := b\<rparr>"] show ?thesis by simp
  next
    case Del
    with Cons.prems Cons.IH [of self] show ?thesis by (simp add: del_not_in_place)
  qed
qed

subsection \<open>Evaluation on the example hosts\<close>

lemmas ev = init_def sanitize_def re_search_def path_join_def startswith_def endswith_def
  sep_def extsep_def splitext_def rfind_def slice_def skip_leading_dots.simps in_class_def

lemmas ev2 = ev set_edit_in_place_def mkstemp_def template_def characters_def
  del_def emit_def plain_host_def plain_move_def plain_remove_def full_disk_host_def
  cross_device_move_def disk_reencoded_def read_only_host_def denied_move_def photo_def photo_in_place_def
  disk_def disk_cleaned_def run_def Let_def

lemma photo_init: "init ''./a.jpg'' = Inr photo"
  by (simp add: ev photo_def)

lemma photo_set_edit_in_place:
  "set_edit_in_place plain_host photo disk =
     Inr (photo_in_place,
          \<lparr> files = [''./a.jpg'' \<mapsto> ''original'', ''/tmp/tmpabcdefgh.jpg'' \<mapsto> []],
            trace = [Create ''/tmp/tmpabcdefgh.jpg''] \<rparr>)"
  by (simp add: ev2)

lemma plain_host_candidates: "\<forall>n\<in>set (candidates plain_host). set n \<subseteq> set characters"
  by (simp add: plain_host_def characters_def)

lemma set_edit_in_place_succeeds:
  assumes "candidates e = n # ns" and "0 < TMP_MAX e"
    and "files w (path_join (tempdir e) (template @ n @ snd (splitext (filename self)))) = None"
    and "os_open_fault e (path_join (tempdir e) (template @ n @ snd (splitext (filename self)))) = None"
  shows "\<exists>self' w'. set_edit_in_place e self w = Inr (self', w')"
  using assms by (simp add: set_edit_in_place_def mkstemp_def take_Cons' split_beta Let_def)

section \<open>Path sanitization and the output file name\<close>

text \<open>
  C1. A path whose first character is not a lowercase ASCII letter, an ASCII digit,
  \<^verbatim>\<open>.\<close> or \<^verbatim>\<open>/\<close> is stored as \<^verbatim>\<open>./\<close> followed by the path, and the output file
  name is derived from that rewritten path; a path whose first character is in
  \<^verbatim>\<open>[a-z0-9./]\<close> is stored unchanged.
\<close>

theorem init_sanitizes:
  assumes "init p = Inr s"
  shows "(\<forall>c cs. p = c # cs \<and> \<not> in_class c \<longrightarrow>
            filename s = ''./'' @ p \<and>
            output_filename s = fst (splitext (''./'' @ p)) @ ''.cleaned'' @ snd (splitext (''./'' @ p))) \<and>
         (\<forall>c cs. p = c # cs \<and> in_class c \<longrightarrow> filename s = p)"
proof (intro conjI allI impI)
  fix c cs assume "p = c # cs \<and> \<not> in_class c"
  then have "\<not> re_search p" by (auto simp: re_search_def)
  then have "sanitize p = ''./'' @ p" by (rule sanitize_rewritten)
  with init_fields [OF assms]
  show "filename s = ''./'' @ p"
    and "output_filename s = fst (splitext (''./'' @ p)) @ ''.cleaned'' @ snd (splitext (''./'' @ p))"
    by simp_all
next
  fix c cs assume "p = c # cs \<and> in_class c"
  then have "re_search p" by (auto simp: re_search_def)
  with init_fields(1) [OF assms] show "filename s = p" by (simp add: sanitize_kept)
qed

theorem init_sanitizes_witness:
  "init ''-rf.jpg'' = Inr \<lparr>filename = ''./-rf.jpg'', output_filename = ''./-rf.cleaned.jpg'',
                            lightweight_cleaning = False, in_place = False\<rparr> \<and>
   \<not> in_class CHR ''-'' \<and>
   splitext ''./-rf.jpg'' = (''./-rf'', ''.jpg'') \<and>
   init ''a.jpg'' = Inr \<lparr>filename = ''a.jpg'', output_filename = ''a.cleaned.jpg'',
                          lightweight_cleaning = False, in_place = False\<rparr> \<and>
   in_class CHR ''a''"
proof -
  let ?s = "\<lparr>filename = ''./-rf.jpg'', output_filename = ''./-rf.cleaned.jpg'',
             lightweight_cleaning = False, in_place = False\<rparr>"
  let ?t = "\<lparr>filename = ''a.jpg'', output_filename = ''a.cleaned.jpg'',
             lightweight_cleaning = False, in_place = False\<rparr>"
  have 1: "init ''-rf.jpg'' = Inr ?s" by (simp add: ev)
  have 2: "init ''a.jpg'' = Inr ?t" by (simp add: ev)
  have 3: "\<not> in_class CHR ''-''" "in_class CHR ''a''" by (simp_all add: in_class_def)
  have 4: "splitext ''./-rf.jpg'' = (''./-rf'', ''.jpg'')" by (simp add: ev)
  from init_sanitizes [OF 1] 3
  have "filename ?s = ''./'' @ ''-rf.jpg'' \<and>
        output_filename ?s = fst (splitext (''./'' @ ''-rf.jpg'')) @ ''.cleaned'' @ snd (splitext (''./'' @ ''-rf.jpg''))"
    by blast
  moreover from init_sanitizes [OF 2] 3 have "filename ?t = ''a.jpg''" by blast
  ultimately show ?thesis using 1 2 3 4 by blast
qed

text \<open>
  The empty string is no exception to construction: \<^verbatim>\<open>re.search\<close> finds nothing
  in it, so it is joined to \<^verbatim>\<open>.\<close> like any other rewritten path, and an instance
  for \<^verbatim>\<open>./\<close> is returned.
\<close>

theorem init_empty_path:
  "init [] = Inr \<lparr>filename = ''./'', output_filename = ''./.cleaned'',
                   lightweight_cleaning = False, in_place = False\<rparr>"
  by (simp add: ev)

text \<open>
  C2, as the code has it. The constructor of the base class never raises: for every string, the empty
  one included, it returns an instance whose \<^verbatim>\<open>filename\<close> is the sanitized path and
  which is not in in-place mode. \<^verbatim>\<open>ValueError\<close> is left to the constructors of the
  concrete parsers.
\<close>

theorem init_never_raises:
  "\<exists>self. init p = Inr self \<and> filename self = sanitize p \<and> \<not> in_place self"
  by (simp add: init_eq)

text \<open>
  For a source without extension whose base name has a character other than a dot,
  the output path does not have the extension of the source: \<^verbatim>\<open>readme\<close> has none,
  \<^verbatim>\<open>readme.cleaned\<close> has \<^verbatim>\<open>.cleaned\<close>.
\<close>

theorem init_output_extension_differs:
  "init ''readme'' = Inr \<lparr>filename = ''readme'', output_filename = ''readme.cleaned'',
                           lightweight_cleaning = False, in_place = False\<rparr> \<and>
   snd (splitext ''readme'') = [] \<and>
   snd (splitext ''readme.cleaned'') = ''.cleaned''"
  by (simp add: ev)

text \<open>
  C3, as the code has it. After construction (the instance is not in in-place mode) the output file
  name is the stem of the sanitized path, then \<^verbatim>\<open>.cleaned\<close>, then its extension;
  and whenever the sanitized path has an extension, the extension of the output file name
  is that same extension.
\<close>

theorem init_output_filename:
  assumes "init p = Inr self"
  shows "\<not> in_place self \<and>
         output_filename self =
           fst (splitext (filename self)) @ ''.cleaned'' @ snd (splitext (filename self)) \<and>
         (snd (splitext (filename self)) \<noteq> [] \<longrightarrow>
            snd (splitext (output_filename self)) = snd (splitext (filename self)))"
  using init_fields [OF assms] cleaned_ext [of "sanitize p"] by simp

theorem init_output_filename_witness:
  "init ''./tests/data/clean.pdf'' =
     Inr \<lparr>filename = ''./tests/data/clean.pdf'', output_filename = ''./tests/data/clean.cleaned.pdf'',
          lightweight_cleaning = False, in_place = False\<rparr> \<and>
   snd (splitext ''./tests/data/clean.pdf'') = ''.pdf'' \<and>
   snd (splitext ''./tests/data/clean.cleaned.pdf'') = ''.pdf''"
proof -
  let ?s = "\<lparr>filename = ''./tests/data/clean.pdf'', output_filename = ''./tests/data/clean.cleaned.pdf'',
             lightweight_cleaning = False, in_place = False\<rparr>"
  have 1: "init ''./tests/data/clean.pdf'' = Inr ?s" by (simp add: ev)
  have 2: "snd (splitext ''./tests/data/clean.pdf'') = ''.pdf''" by (simp add: ev)
  then have "snd (splitext (filename ?s)) \<noteq> []" by simp
  with init_output_filename [OF 1]
  have "snd (splitext (output_filename ?s)) = snd (splitext (filename ?s))" by blast
  with 1 2 show ?thesis by simp
qed

text \<open>
  C10. When the sanitized path has no extension, the output file name is that path with
  \<^verbatim>\<open>.cleaned\<close> appended at its end. A dotfile is such a path:
  \<^verbatim>\<open>./.config\<close> is all stem, and its output file name is \<^verbatim>\<open>./.config.cleaned\<close>.
\<close>

theorem init_no_extension:
  "(init p = Inr self \<longrightarrow> snd (splitext (filename self)) = [] \<longrightarrow>
      output_filename self = filename self @ ''.cleaned'') \<and>
   splitext ''./.config'' = (''./.config'', []) \<and>
   init ''./.config'' = Inr \<lparr>filename = ''./.config'', output_filename = ''./.config.cleaned'',
                              lightweight_cleaning = False, in_place = False\<rparr>"
proof (intro conjI impI)
  assume i: "init p = Inr self" and e: "snd (splitext (filename self)) = []"
  from e have "fst (splitext (filename self)) = filename self" by (rule splitext_noext)
  with init_fields [OF i] e show "output_filename self = filename self @ ''.cleaned''" by simp
qed (simp_all add: ev)

theorem init_no_extension_witness:
  "init ''Makefile'' = Inr \<lparr>filename = ''./Makefile'', output_filename = ''./Makefile.cleaned'',
                             lightweight_cleaning = False, in_place = False\<rparr> \<and>
   snd (splitext ''./Makefile'') = []"
proof -
  let ?s = "\<lparr>filename = ''./Makefile'', output_filename = ''./Makefile.cleaned'',
             lightweight_cleaning = False, in_place = False\<rparr>"
  have 1: "init ''Makefile'' = Inr ?s" by (simp add: ev)
  have 2: "snd (splitext (filename ?s)) = []" by (simp add: ev)
  from init_no_extension [of "''Makefile''" ?s] 1 2
  have "output_filename ?s = filename ?s @ ''.cleaned''" by blast
  with 1 2 show ?thesis by simp
qed

section \<open>In-place editing\<close>

text \<open>
  The extension invariant does not hold in every default state: for \<^verbatim>\<open>notes\<close>,
  which has no extension, the constructor leaves the output file name
  \<^verbatim>\<open>notes.cleaned\<close>, whose extension is \<^verbatim>\<open>.cleaned\<close>.
\<close>

theorem init_extension_not_kept:
  "init ''notes'' = Inr \<lparr>filename = ''notes'', output_filename = ''notes.cleaned'',
                          lightweight_cleaning = False, in_place = False\<rparr> \<and>
   \<not> extension_kept \<lparr>filename = ''notes'', output_filename = ''notes.cleaned'',
                      lightweight_cleaning = False, in_place = False\<rparr>"
  by (simp add: ev extension_kept_def)

text \<open>
  C4, as the code has it. After a call of \<^verbatim>\<open>set_edit_in_place\<close> that returns, with
  temporary names drawn over the alphabet of \<^verbatim>\<open>tempfile\<close>, the instance is in
  in-place mode, the output file name is a path that did not exist before the call and
  holds an empty file after it, and the extension of that path is the extension of
  \<^verbatim>\<open>filename\<close>. So the extension invariant holds in every in-place state; in the
  state the constructor leaves it holds whenever \<^verbatim>\<open>filename\<close> has an extension.
\<close>

theorem set_edit_in_place_temporary:
  assumes call: "set_edit_in_place e self w = Inr (self', w')"
    and names: "\<forall>n\<in>set (candidates e). set n \<subseteq> set characters"
  shows "in_place self' \<and>
         files w (output_filename self') = None \<and>
         files w' = (files w)(output_filename self' \<mapsto> []) \<and>
         snd (splitext (output_filename self')) = snd (splitext (filename self')) \<and>
         extension_kept self' \<and>
         (\<forall>p s. init p = Inr s \<longrightarrow> snd (splitext (filename s)) \<noteq> [] \<longrightarrow> extension_kept s)"
proof -
  from call obtain n where n: "n \<in> set (candidates e)"
    and out: "output_filename self' = path_join (tempdir e) (template @ n @ snd (splitext (filename self)))"
    and fresh: "files w (output_filename self') = None"
      "files w' = (files w)(output_filename self' \<mapsto> [])"
    and self': "self' = self\<lparr>output_filename := output_filename self', in_place := True\<rparr>"
    by (rule set_edit_in_place_Inr)
  from self' have f: "filename self' = filename self" and i: "in_place self'"
    by (metis parser.select_convs parser.surjective parser.update_convs)+
  from n names have "sep \<notin> set n \<and> extsep \<notin> set n" by (simp add: characters_plain)
  then have ext: "snd (splitext (output_filename self')) = snd (splitext (filename self))"
    unfolding out by (simp add: splitext_temporary)
  with f have "extension_kept self'" by (simp add: extension_kept_def)
  with i fresh ext f init_extension_kept show ?thesis by simp
qed

theorem set_edit_in_place_temporary_witness:
  "set_edit_in_place plain_host photo disk =
     Inr (photo_in_place,
          \<lparr> files = [''./a.jpg'' \<mapsto> ''original'', ''/tmp/tmpabcdefgh.jpg'' \<mapsto> []],
            trace = [Create ''/tmp/tmpabcdefgh.jpg''] \<rparr>) \<and>
   in_place photo_in_place \<and>
   files disk (output_filename photo_in_place) = None \<and>
   snd (splitext (output_filename photo_in_place)) = ''.jpg'' \<and>
   snd (splitext (filename photo_in_place)) = ''.jpg'' \<and>
   extension_kept photo_in_place \<and>
   init ''./a.jpg'' = Inr photo \<and>
   snd (splitext (filename photo)) = ''.jpg'' \<and>
   extension_kept photo"
proof -
  note t = set_edit_in_place_temporary [OF photo_set_edit_in_place plain_host_candidates]
  have 1: "snd (splitext (filename photo_in_place)) = ''.jpg''"
    "snd (splitext (filename photo)) = ''.jpg''" by (simp_all add: ev2)
  then have "snd (splitext (filename photo)) \<noteq> []" by simp
  with t photo_init have "extension_kept photo" by blast
  with 1 show ?thesis
    using t photo_set_edit_in_place photo_init by simp
qed

section \<open>End of life\<close>

text \<open>
  A failed move does not always leave the original file as it was. On
  \<open>full_disk_host\<close> the move of the cleaned temporary file onto \<^verbatim>\<open>./a.jpg\<close> raises
  after the copy has overwritten the destination with the part of the cleaned file that
  fits: \<^verbatim>\<open>__del__\<close> reports, removes the temporary file and returns, and
  \<^verbatim>\<open>./a.jpg\<close> holds the beginning of the cleaned file.
\<close>

theorem del_original_modified:
  "in_place photo_in_place \<and>
   shutil_move full_disk_host (files disk_reencoded) (output_filename photo_in_place)
       (filename photo_in_place) =
     (Some (OSError ''[Errno 28] No space left on device''),
      [''./a.jpg'' \<mapsto> ''cleaned '', ''/tmp/tmpabcdefgh.jpg'' \<mapsto> ''cleaned and re-encoded'']) \<and>
   files disk_reencoded (filename photo_in_place) = Some ''original'' \<and>
   fst (del full_disk_host photo_in_place disk_reencoded) = None \<and>
   files (snd (del full_disk_host photo_in_place disk_reencoded)) (filename photo_in_place) =
     Some ''cleaned '' \<and>
   files (snd (del full_disk_host photo_in_place disk_reencoded)) (output_filename photo_in_place) =
     None"
  by (simp add: ev2 fun_upd_twist)

text \<open>
  C5, as the code has it. For an in-place instance whose move raises and whose report of
  that failure is printed, \<^verbatim>\<open>__del__\<close> then attempts to remove the temporary file,
  and catches and reports an \<^verbatim>\<open>OSError\<close> of that removal; when that second report
  is printed as well, the method returns without raising (\<^verbatim>\<open>os.remove\<close> signals
  its failures by \<^verbatim>\<open>OSError\<close>). It does nothing else to the file system: the
  attempted move and the attempted removal are its only file operations, and the files
  it leaves are those the removal left. So the file at \<^verbatim>\<open>filename\<close> is as the
  failed move and the removal left it, unmodified when they did not touch it.
\<close>

theorem del_move_failure:
  assumes "in_place self"
    and "shutil_move e (files w) (output_filename self) (filename self) = (Some x, fs1)"
    and "py_print e [Str (''[-] '' @ filename self @ '' was NOT cleaned: '' @ str x)] = None"
    and "os_remove e fs1 (output_filename self) = (r, fs2)"
    and "r = None \<or>
         (\<exists>m. r = Some (OSError m) \<and>
               py_print e [Str ''[-] could not remove temporary file %s: %s'',
                           Tuple (output_filename self) (OSError m)] = None)"
  shows "fst (del e self w) = None \<and>
         files (snd (del e self w)) = fs2 \<and>
         trace (snd (del e self w)) =
           trace w @
           [Move (output_filename self) (filename self),
            Print [Str (''[-] '' @ filename self @ '' was NOT cleaned: '' @ str x)],
            Remove (output_filename self)] @
           (case r of None \<Rightarrow> []
            | Some y \<Rightarrow> [Print [Str ''[-] could not remove temporary file %s: %s'',
                                Tuple (output_filename self) y]])"
proof -
  note d = del_move_raises [OF assms(1-4)]
  from assms(5) show ?thesis
  proof
    assume "r = None"
    with d show ?thesis by simp
  next
    assume "\<exists>m. r = Some (OSError m) \<and>
               py_print e [Str ''[-] could not remove temporary file %s: %s'',
                           Tuple (output_filename self) (OSError m)] = None"
    then obtain m where "r = Some (OSError m)"
      and "py_print e [Str ''[-] could not remove temporary file %s: %s'',
                       Tuple (output_filename self) (OSError m)] = None" by blast
    with d show ?thesis by simp
  qed
qed

theorem del_move_failure_witness:
  "in_place photo_in_place \<and>
   shutil_move read_only_host (files disk_cleaned) (output_filename photo_in_place)
       (filename photo_in_place) =
     (Some (OSError ''[Errno 13] Permission denied''), files disk_cleaned) \<and>
   py_print read_only_host [Str ''[-] ./a.jpg was NOT cleaned: [Errno 13] Permission denied''] = None \<and>
   os_remove read_only_host (files disk_cleaned) (output_filename photo_in_place) =
     (None, [''./a.jpg'' \<mapsto> ''original'']) \<and>
   fst (del read_only_host photo_in_place disk_cleaned) = None \<and>
   files (snd (del read_only_host photo_in_place disk_cleaned)) = [''./a.jpg'' \<mapsto> ''original''] \<and>
   trace (snd (del read_only_host photo_in_place disk_cleaned)) =
     [Create ''/tmp/tmpabcdefgh.jpg'',
      Move ''/tmp/tmpabcdefgh.jpg'' ''./a.jpg'',
      Print [Str ''[-] ./a.jpg was NOT cleaned: [Errno 13] Permission denied''],
      Remove ''/tmp/tmpabcdefgh.jpg''] \<and>
   files (snd (del read_only_host photo_in_place disk_cleaned)) (filename photo_in_place) =
     Some ''original''"
proof -
  have 1: "in_place photo_in_place" by (simp add: photo_in_place_def)
  have 2: "shutil_move read_only_host (files disk_cleaned) (output_filename photo_in_place)
       (filename photo_in_place) =
     (Some (OSError ''[Errno 13] Permission denied''), files disk_cleaned)"
    by (simp add: ev2)
  have 3: "py_print read_only_host
      [Str (''[-] '' @ filename photo_in_place @ '' was NOT cleaned: '' @
            str (OSError ''[Errno 13] Permission denied''))] = None"
    by (simp add: ev2)
  have 4: "os_remove read_only_host (files disk_cleaned) (output_filename photo_in_place) =
     (None, [''./a.jpg'' \<mapsto> ''original''])"
    by (simp add: ev2 fun_eq_iff)
  have 5: "None = None \<or>
     (\<exists>m. (None :: exn option) = Some (OSError m) \<and>
        py_print read_only_host [Str ''[-] could not remove temporary file %s: %s'',
                                 Tuple (output_filename photo_in_place) (OSError m)] = None)"
    by simp
  have 6: "files disk_cleaned (filename photo_in_place) = Some ''original''" by (simp add: ev2)
  have 7: "trace disk_cleaned = [Create ''/tmp/tmpabcdefgh.jpg'']"
    "filename photo_in_place = ''./a.jpg''" "output_filename photo_in_place = ''/tmp/tmpabcdefgh.jpg''"
    by (simp_all add: ev2)
  have 8: "py_print read_only_host
      [Str ''[-] ./a.jpg was NOT cleaned: [Errno 13] Permission denied''] = None"
    by (simp add: ev2)
  from del_move_failure [OF 1 2 3 4 5] 1 2 4 6 7 8 show ?thesis by simp
qed




text \<open>
  C7. On an instance that is not in in-place mode \<^verbatim>\<open>__del__\<close> returns at once:
  no move, no removal, no output, the file system as it was. An instance is in that state
  from its construction on, as long as \<^verbatim>\<open>set_edit_in_place\<close> is not called: no
  operation of the base class touches the file system then, the end of life included.
\<close>

theorem del_without_in_place:
  "(\<not> in_place self \<longrightarrow> del e self w = (None, w)) \<and>
   (init p = Inr self \<longrightarrow> SetEditInPlace \<notin> set ops \<longrightarrow>
      \<not> in_place (fst (run e (self, w) ops)) \<and> snd (run e (self, w) ops) = w \<and>
      del e (fst (run e (self, w) ops)) w = (None, w))"
proof (intro conjI impI)
  assume "\<not> in_place self"
  then show "del e self w = (None, w)" by (rule del_not_in_place)
next
  assume i: "init p = Inr self" and o: "SetEditInPlace \<notin> set ops"
  from init_fields(3) [OF i] o
  have r: "\<not> in_place (fst (run e (self, w) ops)) \<and> snd (run e (self, w) ops) = w"
    by (rule run_no_in_place)
  then show "\<not> in_place (fst (run e (self, w) ops))" "snd (run e (self, w) ops) = w"
    by simp_all
  from r show "del e (fst (run e (self, w) ops)) w = (None, w)"
    by (simp add: del_not_in_place)
qed

theorem del_without_in_place_witness:
  "\<not> in_place photo \<and> del plain_host photo disk_cleaned = (None, disk_cleaned) \<and>
   init ''./a.jpg'' = Inr photo \<and>
   SetEditInPlace \<notin> set [SetLightweightCleaning True, Del, Del] \<and>
   snd (run plain_host (photo, disk_cleaned) [SetLightweightCleaning True, Del, Del]) = disk_cleaned"
proof -
  have 1: "\<not> in_place photo" by (simp add: photo_def)
  have 2: "SetEditInPlace \<notin> set [SetLightweightCleaning True, Del, Del]" by simp
  from del_without_in_place [of photo plain_host disk_cleaned "''./a.jpg''"
      "[SetLightweightCleaning True, Del, Del]"] 1 2 photo_init
  show ?thesis by blast
qed

section \<open>The stored file name\<close>

text \<open>
  C8. No operation changes \<^verbatim>\<open>filename\<close>: not \<^verbatim>\<open>set_edit_in_place\<close>, not the
  assignment of \<^verbatim>\<open>lightweight_cleaning\<close>, not the end of life, and so no sequence of
  them; the field keeps the value the constructor computed.
\<close>

theorem filename_immutable:
  "(set_edit_in_place e self w = Inr (self', w') \<longrightarrow> filename self' = filename self) \<and>
   filename (fst (step e (self, w) x)) = filename self \<and>
   filename (fst (run e (self, w) ops)) = filename self \<and>
   (init p = Inr self \<longrightarrow> filename (fst (run e (self, w) ops)) = sanitize p)"
proof (intro conjI impI)
  assume "set_edit_in_place e self w = Inr (self', w')"
  then show "filename self' = filename self"
    by (auto simp: set_edit_in_place_def split_beta split: sum.splits)
next
  show "filename (fst (step e (self, w) x)) = filename self" by (simp add: step_filename)
  show "filename (fst (run e (self, w) ops)) = filename self" by (simp add: run_filename)
  assume "init p = Inr self"
  then show "filename (fst (run e (self, w) ops)) = sanitize p"
    by (simp add: run_filename init_fields(1))
qed

theorem filename_immutable_witness:
  "set_edit_in_place plain_host photo disk =
     Inr (photo_in_place,
          \<lparr> files = [''./a.jpg'' \<mapsto> ''original'', ''/tmp/tmpabcdefgh.jpg'' \<mapsto> []],
            trace = [Create ''/tmp/tmpabcdefgh.jpg''] \<rparr>) \<and>
   filename photo_in_place = filename photo \<and>
   init ''./a.jpg'' = Inr photo \<and>
   filename (fst (run plain_host (photo, disk) [SetLightweightCleaning True, SetEditInPlace, Del]))
     = ''./a.jpg''"
proof -
  have "sanitize ''./a.jpg'' = ''./a.jpg''" by (simp add: ev)
  with filename_immutable [of plain_host photo disk photo_in_place
      "\<lparr> files = [''./a.jpg'' \<mapsto> ''original'', ''/tmp/tmpabcdefgh.jpg'' \<mapsto> []],
         trace = [Create ''/tmp/tmpabcdefgh.jpg''] \<rparr>" _
      "[SetLightweightCleaning True, SetEditInPlace, Del]" "''./a.jpg''"]
    photo_set_edit_in_place photo_init
  show ?thesis by (simp add: photo_def)
qed

text \<open>
  C9. After construction and after any sequence of operations the stored file name is not
  empty and begins with a character of \<^verbatim>\<open>[a-z0-9./]\<close>. When the constructor rewrote
  the path, the stored name is exactly \<^verbatim>\<open>./\<close> followed by the characters of the given
  path, unchanged, and begins with a dot; otherwise it is the given path.
\<close>

theorem filename_sanitized_invariant:
  assumes "init p = Inr self"
  shows "filename (fst (run e (self, w) ops)) \<noteq> [] \<and>
         in_class (hd (filename (fst (run e (self, w) ops)))) \<and>
         (\<not> re_search p \<longrightarrow>
            filename (fst (run e (self, w) ops)) = ''./'' @ p \<and>
            hd (filename (fst (run e (self, w) ops))) = CHR ''.'') \<and>
         (re_search p \<longrightarrow> filename (fst (run e (self, w) ops)) = p)"
proof -
  have f: "filename (fst (run e (self, w) ops)) = sanitize p"
    using assms by (simp add: run_filename init_fields(1))
  have "re_search (sanitize p)" by (rule re_search_sanitize)
  then have "sanitize p \<noteq> [] \<and> in_class (hd (sanitize p))"
    by (cases "sanitize p") (simp_all add: re_search_def)
  with f show ?thesis by (simp add: sanitize_rewritten sanitize_kept)
qed

theorem filename_sanitized_invariant_witness:
  "init ''-rf.jpg'' = Inr \<lparr>filename = ''./-rf.jpg'', output_filename = ''./-rf.cleaned.jpg'',
                            lightweight_cleaning = False, in_place = False\<rparr> \<and>
   \<not> re_search ''-rf.jpg'' \<and>
   filename (fst (run plain_host
     (\<lparr>filename = ''./-rf.jpg'', output_filename = ''./-rf.cleaned.jpg'',
       lightweight_cleaning = False, in_place = False\<rparr>, disk) [SetEditInPlace, Del])) = ''./-rf.jpg'' \<and>
   init ''./a.jpg'' = Inr photo \<and> re_search ''./a.jpg'' \<and>
   filename (fst (run plain_host (photo, disk) [SetEditInPlace, Del])) = ''./a.jpg''"
proof -
  let ?s = "\<lparr>filename = ''./-rf.jpg'', output_filename = ''./-rf.cleaned.jpg'',
             lightweight_cleaning = False, in_place = False\<rparr>"
  have 1: "init ''-rf.jpg'' = Inr ?s" by (simp add: ev)
  have 2: "\<not> re_search ''-rf.jpg''" "re_search ''./a.jpg''" by (simp_all add: re_search_def in_class_def)
  from filename_sanitized_invariant [OF 1, of plain_host disk "[SetEditInPlace, Del]"] 2
  have "filename (fst (run plain_host (?s, disk) [SetEditInPlace, Del])) = ''./-rf.jpg''" by simp
  moreover from filename_sanitized_invariant [OF photo_init, of plain_host disk "[SetEditInPlace, Del]"] 2
  have "filename (fst (run plain_host (photo, disk) [SetEditInPlace, Del])) = ''./a.jpg''" by simp
  ultimately show ?thesis using 1 2 photo_init by simp
qed

end
